theory Spec2Isabelle
  imports Main
begin

section \<open>Probing one service (src/lib/status-utils.ts)\<close>

text \<open>
  The three health levels of a probe result, the string union
  \<^verbatim>\<open>"operational" | "degraded" | "down"\<close> of the source.
\<close>

datatype probe_status = Operational | Degraded | Down

text \<open>
  The object returned by \<^verbatim>\<open>checkServiceStatus\<close>. A field that is \<^verbatim>\<open>null\<close> in the
  source is \<open>None\<close> here. Times are integers in milliseconds, status codes are integers.
\<close>

record probe_result =
  status :: probe_status
  response_time :: "int option"
  status_code :: "int option"
  error_message :: "string option"

subsection \<open>Numbers in template strings\<close>

text \<open>
  A template string such as \<^verbatim>\<open>`Server error (${statusCode})`\<close> prints the integer in
  decimal, with a leading minus sign when it is negative.
\<close>

definition digit_char :: "nat \<Rightarrow> char" where
  "digit_char n = ''0123456789'' ! n"

function string_of_nat :: "nat \<Rightarrow> string" where
  "string_of_nat n =
     (if n < 10 then [digit_char n] else string_of_nat (n div 10) @ [digit_char (n mod 10)])"
  by pat_completeness auto
termination
  by (relation "measure id") auto

declare string_of_nat.simps [simp del]

definition string_of_int :: "int \<Rightarrow> string" where
  "string_of_int i = (if i < 0 then CHR ''-'' # string_of_nat (nat (- i)) else string_of_nat (nat i))"

subsection \<open>The classifier\<close>

text \<open>
  \<^verbatim>\<open>classify(statusCode, latencyMs)\<close>, the helper defined inside
  \<^verbatim>\<open>checkServiceStatus\<close>: the branches are tried in the order of the source.
\<close>

definition classify :: "int \<Rightarrow> int \<Rightarrow> probe_status \<times> string option" where
  "classify statusCode latencyMs =
     (if statusCode \<ge> 200 \<and> statusCode < 300 then
        (if latencyMs > 2500 then Degraded else Operational,
         if latencyMs > 2500 then Some ''Slow response'' else None)
      else if statusCode = 401 \<or> statusCode = 403 then (Operational, None)
      else if statusCode = 429 then (Degraded, Some ''Rate limited (429)'')
      else if statusCode = 404 then (Degraded, Some ''Page not found (404)'')
      else if statusCode \<ge> 500 then
        (Down, Some (''Server error ('' @ string_of_int statusCode @ '')''))
      else if statusCode \<ge> 400 then
        (Degraded, Some (''Client error ('' @ string_of_int statusCode @ '')''))
      else if statusCode \<ge> 300 \<and> statusCode < 400 then (Operational, None)
      else (Degraded, Some (''Unexpected status ('' @ string_of_int statusCode @ '')'')))"

subsection \<open>The network and the clock, as seen by one probe\<close>

text \<open>
  \<^verbatim>\<open>fetch\<close> either resolves with a response, of which the probe reads only
  \<^verbatim>\<open>response.status\<close>, or rejects with an error object, of which the probe reads
  \<^verbatim>\<open>name\<close> and \<^verbatim>\<open>message\<close>. An abort by the probe's own timer rejects with the
  name \<^verbatim>\<open>AbortError\<close>.
\<close>

record js_error =
  err_name :: string
  err_message :: string

datatype fetch_outcome = Responded int | Rejected js_error

text \<open>
  What happens while one url is probed: the outcome of the GET, the outcome of the HEAD
  (consulted only when the GET rejects), and the values \<^verbatim>\<open>Date.now()\<close> returns at the
  five places the source reads the clock.
\<close>

record probe_io =
  start_time :: int
  get_outcome :: fetch_outcome
  get_done :: int
  head_start :: int
  head_outcome :: fetch_outcome
  head_done :: int
  fail_time :: int

text \<open>\<^verbatim>\<open>String.prototype.includes\<close>: the second string occurs inside the first.\<close>

fun starts_with :: "string \<Rightarrow> string \<Rightarrow> bool" where
  "starts_with s [] = True"
| "starts_with [] (c # cs) = False"
| "starts_with (x # xs) (c # cs) = (x = c \<and> starts_with xs cs)"

fun str_includes :: "string \<Rightarrow> string \<Rightarrow> bool" where
  "str_includes [] sub = (sub = [])"
| "str_includes (x # xs) sub = (starts_with (x # xs) sub \<or> str_includes xs sub)"

text \<open>The message chosen in the last \<^verbatim>\<open>catch\<close>, from the error of the GET attempt.\<close>

definition failure_message :: "js_error \<Rightarrow> string" where
  "failure_message e =
     (if err_name e = ''AbortError'' then ''Request timeout (>10s)''
      else if str_includes (err_message e) ''ENOTFOUND'' then ''Domain not found (DNS error)''
      else if str_includes (err_message e) ''ECONNREFUSED'' then ''Connection refused''
      else if err_message e \<noteq> [] then err_message e
      else ''Connection failed'')"

text \<open>
  \<^verbatim>\<open>checkServiceStatus(url)\<close>. The first argument says what the network and the clock
  do for each url. Every path of the source ends in a \<^verbatim>\<open>return\<close>, so the result type
  has no error branch.
\<close>

definition checkServiceStatus :: "(string \<Rightarrow> probe_io) \<Rightarrow> string \<Rightarrow> probe_result" where
  "checkServiceStatus net url =
     (let io = net url; startTime = start_time io in
      case get_outcome io of
        Responded code \<Rightarrow>
          (let responseTime = get_done io - startTime;
               (st, msg) = classify code responseTime
           in \<lparr>status = st, response_time = Some responseTime,
               status_code = Some code, error_message = msg\<rparr>)
      | Rejected e \<Rightarrow>
          (case head_outcome io of
             Responded hcode \<Rightarrow>
               (let headLatency = head_done io - head_start io;
                    (st, msg) = classify hcode headLatency
                in \<lparr>status = st, response_time = Some headLatency,
                    status_code = Some hcode,
                    error_message =
                      (case msg of
                         None \<Rightarrow> None
                       | Some m \<Rightarrow> if m = [] then None else Some (''Fallback HEAD: '' @ m))\<rparr>)
           | Rejected fallbackError \<Rightarrow>
               (let totalLatency = fail_time io - startTime
                in \<lparr>status = Down,
                    response_time =
                      (if err_name e = ''AbortError'' then None else Some totalLatency),
                    status_code = None,
                    error_message = Some (failure_message e)\<rparr>)))"

section \<open>Stored data (src/schema.sql, the interfaces of the types module)\<close>

text \<open>
  One record per table, one field per column the engine reads or writes. Row identifiers
  are the integers of a \<^verbatim>\<open>SERIAL\<close> column. Database timestamps are integers in seconds;
  every statement of one request sees the same \<^verbatim>\<open>NOW()\<close>. Statements are taken to
  succeed: a lost connection or a value too long for its column is outside this model,
  the constraint violations written out below apart.
\<close>

record service =
  svc_id :: int
  svc_name :: string
  svc_url :: string
  svc_description :: "string option"
  is_active :: bool
  check_interval :: int

record status_check =
  sc_service_id :: int
  sc_status :: probe_status
  sc_response_time :: "int option"
  sc_status_code :: "int option"
  sc_error_message :: "string option"
  checked_at :: int

record incident =
  inc_id :: int
  inc_service_id :: int
  inc_title :: string
  inc_description :: "string option"
  inc_status :: string
  inc_severity :: string
  started_at :: int
  resolved_at :: "int option"

record incident_update =
  iu_incident_id :: int
  iu_message :: string
  iu_status :: string
  iu_created_at :: int

record announcement_reason =
  ar_incident_id :: int
  ar_service_id :: int
  reason_code :: string
  reason_text :: string

record reason_template =
  tmpl_code :: string
  tmpl_label :: string
  tmpl_weight :: int

text \<open>
  The database: the five tables and the next values of the two \<^verbatim>\<open>SERIAL\<close> sequences
  the modelled inserts draw from (a sequence starts at 1).
\<close>

record database =
  services :: "service list"
  status_checks :: "status_check list"
  incidents :: "incident list"
  incident_updates :: "incident_update list"
  announcement_reasons :: "announcement_reason list"
  services_seq :: int
  incidents_seq :: int

section \<open>Selecting the services that are due (POST /api/check-status)\<close>

text \<open>
  The common table expression \<^verbatim>\<open>last_check\<close>: for a service, the \<^verbatim>\<open>checked_at\<close> of the
  first of its rows in descending order of \<^verbatim>\<open>checked_at\<close>, and no row when the service
  has no status check (the \<^verbatim>\<open>LEFT JOIN\<close> then gives \<^verbatim>\<open>NULL\<close>).
\<close>

definition last_check :: "status_check list \<Rightarrow> int \<Rightarrow> int option" where
  "last_check checks sid =
     (case filter (\<lambda>c. sc_service_id c = sid) checks of
        [] \<Rightarrow> None
      | c # cs \<Rightarrow> Some (fold max (map checked_at cs) (checked_at c)))"

text \<open>The two queries of the handler, chosen by \<^verbatim>\<open>force\<close>.\<close>

definition due_services :: "bool \<Rightarrow> int \<Rightarrow> database \<Rightarrow> service list" where
  "due_services force now db =
     (if force then filter is_active (services db)
      else filter (\<lambda>s. is_active s \<and>
                        (case last_check (status_checks db) (svc_id s) of
                           None \<Rightarrow> True
                         | Some t \<Rightarrow> t \<le> now - check_interval s))
             (services db))"

section \<open>Reconciling one probe result into incidents (the body of worker)\<close>

text \<open>The row filter \<^verbatim>\<open>service_id = $1 AND status != 'resolved'\<close>.\<close>

definition is_open :: "int \<Rightarrow> incident \<Rightarrow> bool" where
  "is_open sid i = (inc_service_id i = sid \<and> inc_status i \<noteq> ''resolved'')"

text \<open>
  \<^verbatim>\<open>active.rows[0]?.id ?? null\<close>: the id of the open incident of the service that started
  last, if there is one.
\<close>

definition select_active :: "incident list \<Rightarrow> int \<Rightarrow> int option" where
  "select_active incs sid =
     (case filter (is_open sid) incs of
        [] \<Rightarrow> None
      | i # rest \<Rightarrow>
          Some (inc_id (fold (\<lambda>j best. if started_at best < started_at j then j else best) rest i)))"

text \<open>
  The weighted pick. \<^verbatim>\<open>expanded\<close> repeats each template
  \<^verbatim>\<open>Math.max(1, Number(t.weight) || 1)\<close> times; the second argument of \<open>pick_reason\<close> is
  the index \<^verbatim>\<open>Math.floor(Math.random() * expanded.length)\<close>.
\<close>

definition expand_templates :: "reason_template list \<Rightarrow> (string \<times> string) list" where
  "expand_templates ts =
     concat (map (\<lambda>t. replicate (nat (max 1 (if tmpl_weight t = 0 then 1 else tmpl_weight t)))
                         (tmpl_code t, tmpl_label t)) ts)"

definition pick_reason :: "reason_template list \<Rightarrow> nat \<Rightarrow> string \<times> string" where
  "pick_reason ts idx =
     (if length ts > 0 then
        (let expanded = expand_templates ts in
         if idx < length expanded then expanded ! idx
         else (''SERVER'', ''Server maintenance or outage''))
      else (''SERVER'', ''Server maintenance or outage''))"

text \<open>
  Inserting an announcement reason: \<^verbatim>\<open>UNIQUE (incident_id)\<close> keeps a second row for the
  same incident out, with \<^verbatim>\<open>ON CONFLICT DO NOTHING\<close> as with the client whose error
  result is not looked at.
\<close>

definition insert_reason :: "announcement_reason \<Rightarrow> database \<Rightarrow> database" where
  "insert_reason a db =
     (if ar_incident_id a \<in> set (map ar_incident_id (announcement_reasons db)) then db
      else db\<lparr>announcement_reasons := announcement_reasons db @ [a]\<rparr>)"

text \<open>
  Lines 60 to 146 of the handler: what one iteration of \<^verbatim>\<open>worker\<close> does to the incident
  tables once the probe of \<open>service\<close> has returned \<open>statusResult\<close>. The flag says whether
  the Supabase client exists, \<open>templates\<close> is what its template query returns.
\<close>

definition worker_reconcile ::
  "bool \<Rightarrow> reason_template list \<Rightarrow> nat \<Rightarrow> int \<Rightarrow> service \<Rightarrow> probe_result \<Rightarrow> database \<Rightarrow> database" where
  "worker_reconcile has_supabase templates idx now service statusResult db =
     (if status statusResult = Down then
        (let incidentId = select_active (incidents db) (svc_id service) in
         if (case incidentId of None \<Rightarrow> True | Some n \<Rightarrow> n = 0) then
           (let newId = incidents_seq db;
                db1 = db\<lparr>incidents := incidents db @
                         [\<lparr>inc_id = newId, inc_service_id = svc_id service,
                           inc_title = svc_name service @ '' is down'',
                           inc_description =
                             Some (case error_message statusResult of
                                     None \<Rightarrow> ''Service is not responding''
                                   | Some m \<Rightarrow> if m = [] then ''Service is not responding'' else m),
                           inc_status = ''investigating'', inc_severity = ''major'',
                           started_at = now, resolved_at = None\<rparr>],
                       incidents_seq := newId + 1\<rparr>;
                (reasonCode, reasonText) = pick_reason (if has_supabase then templates else []) idx
            in insert_reason \<lparr>ar_incident_id = newId, ar_service_id = svc_id service,
                               reason_code = reasonCode, reason_text = reasonText\<rparr> db1)
         else db)
      else if status statusResult = Operational then
        (let resolved = map inc_id (filter (is_open (svc_id service)) (incidents db));
             db1 = db\<lparr>incidents :=
                        map (\<lambda>i. if is_open (svc_id service) i
                                  then i\<lparr>inc_status := ''resolved'', resolved_at := Some now\<rparr>
                                  else i) (incidents db)\<rparr>
         in if length resolved > 0 then
              db1\<lparr>announcement_reasons :=
                     filter (\<lambda>a. ar_incident_id a \<notin> set resolved) (announcement_reasons db1),
                   incident_updates := incident_updates db1 @
                     map (\<lambda>k. \<lparr>iu_incident_id = k,
                                 iu_message = ''Service has been restored and is operational'',
                                 iu_status = ''resolved'', iu_created_at = now\<rparr>) resolved\<rparr>
            else db1)
      else db)"

text \<open>
  The down branch once more, cut where the handler awaits. Its first statement is the
  \<^verbatim>\<open>SELECT\<close> above; lines 66 to 115 run after it and see the database only through
  the answer the \<^verbatim>\<open>SELECT\<close> gave, passed here as \<open>incidentId\<close>. No transaction, lock or
  unique index ties the two together, so the statements of another request can run in
  between, and the answer can be stale when the \<^verbatim>\<open>INSERT\<close> runs.
\<close>

definition down_after_select ::
  "bool \<Rightarrow> reason_template list \<Rightarrow> nat \<Rightarrow> int \<Rightarrow> service \<Rightarrow> probe_result \<Rightarrow> int option
     \<Rightarrow> database \<Rightarrow> database" where
  "down_after_select has_supabase templates idx now service statusResult incidentId db =
     (if (case incidentId of None \<Rightarrow> True | Some n \<Rightarrow> n = 0) then
        (let newId = incidents_seq db;
             db1 = db\<lparr>incidents := incidents db @
                      [\<lparr>inc_id = newId, inc_service_id = svc_id service,
                        inc_title = svc_name service @ '' is down'',
                        inc_description =
                          Some (case error_message statusResult of
                                  None \<Rightarrow> ''Service is not responding''
                                | Some m \<Rightarrow> if m = [] then ''Service is not responding'' else m),
                        inc_status = ''investigating'', inc_severity = ''major'',
                        started_at = now, resolved_at = None\<rparr>],
                    incidents_seq := newId + 1\<rparr>;
             (reasonCode, reasonText) = pick_reason (if has_supabase then templates else []) idx
         in insert_reason \<lparr>ar_incident_id = newId, ar_service_id = svc_id service,
                            reason_code = reasonCode, reason_text = reasonText\<rparr> db1)
      else db)"

section \<open>One check cycle and its three entry points\<close>

text \<open>
  What surrounds a request: \<^verbatim>\<open>process.env.CRON_SECRET\<close> (\<open>None\<close> when unset), whether
  \<^verbatim>\<open>getSupabaseServer()\<close> returns a client, the rows of the template table, the index
  drawn for the reason of each service, the network and the clock of each probe, and
  the database's \<^verbatim>\<open>NOW()\<close>.
\<close>

record environment =
  env_cron_secret :: "string option"
  env_supabase :: bool
  env_templates :: "reason_template list"
  env_random_index :: "int \<Rightarrow> nat"
  env_net :: "string \<Rightarrow> probe_io"
  env_now :: int

text \<open>The parts of a request the handlers read: two headers and two query parameters.\<close>

record request =
  authorization :: "string option"
  x_force_check :: "string option"
  query_secret :: "string option"
  query_force :: "string option"

record collected_row =
  col_id :: int
  col_name :: string
  col_result :: probe_result

record result_row =
  res_service :: string
  res_status :: probe_status
  res_response_time :: "int option"

datatype response_body = ErrorBody string | CheckedBody nat "result_row list"

record response =
  http_status :: nat
  body :: response_body

text \<open>
  What a handler leaves behind: its response, the database afterwards, and the urls it
  called \<^verbatim>\<open>checkServiceStatus\<close> on.
\<close>

record outcome =
  out_response :: response
  out_db :: database
  out_probed :: "string list"

record cycle_state =
  cs_db :: database
  cs_collected :: "collected_row list"
  cs_results :: "result_row list"

text \<open>
  The loop of \<^verbatim>\<open>worker\<close>. Up to five workers share the index \<^verbatim>\<open>i\<close>, so every selected
  service is taken by exactly one of them; the model takes the services one after the
  other, in the order of the query's rows.
\<close>

fun worker :: "environment \<Rightarrow> service list \<Rightarrow> cycle_state \<Rightarrow> cycle_state" where
  "worker env [] st = st"
| "worker env (service # rest) st =
     (let statusResult = checkServiceStatus (env_net env) (svc_url service);
          collected = cs_collected st @
            [\<lparr>col_id = svc_id service, col_name = svc_name service, col_result = statusResult\<rparr>];
          db1 = worker_reconcile (env_supabase env) (env_templates env)
                  (env_random_index env (svc_id service)) (env_now env) service statusResult
                  (cs_db st);
          results = cs_results st @
            [\<lparr>res_service = svc_name service, res_status = status statusResult,
              res_response_time = response_time statusResult\<rparr>]
      in worker env rest \<lparr>cs_db = db1, cs_collected = collected, cs_results = results\<rparr>)"

text \<open>\<^verbatim>\<open>cleanup_old_status_checks()\<close> of schema.sql: thirty days are 2592000 seconds.\<close>

definition cleanup_old_status_checks :: "int \<Rightarrow> database \<Rightarrow> database" where
  "cleanup_old_status_checks now db =
     db\<lparr>status_checks := filter (\<lambda>c. \<not> checked_at c < now - 2592000) (status_checks db)\<rparr>"

text \<open>\<^verbatim>\<open>toLowerCase\<close> on the letters A to Z.\<close>

definition lower_char :: "char \<Rightarrow> char" where
  "lower_char c =
     (if (65::nat) \<le> of_char c \<and> of_char c \<le> (90::nat) then char_of (of_char c + (32::nat)) else c)"

definition toLowerCase :: "string \<Rightarrow> string" where
  "toLowerCase s = map lower_char s"

definition unauthorized :: "database \<Rightarrow> outcome" where
  "unauthorized db =
     \<lparr>out_response = \<lparr>http_status = 401, body = ErrorBody ''Unauthorized''\<rparr>,
      out_db = db, out_probed = []\<rparr>"

text \<open>Lines 16 to 194 of the POST handler: everything after the secret check.\<close>

definition run_checks :: "environment \<Rightarrow> request \<Rightarrow> database \<Rightarrow> outcome" where
  "run_checks env req db =
     (let forceHeader = toLowerCase (case x_force_check req of None \<Rightarrow> [] | Some h \<Rightarrow> h);
          force = (forceHeader = ''1'' \<or> forceHeader = ''true'');
          due = due_services force (env_now env) db;
          st = worker env due \<lparr>cs_db = db, cs_collected = [], cs_results = []\<rparr>;
          db2 = (if length (cs_collected st) > 0 then
                   (cs_db st)\<lparr>status_checks := status_checks (cs_db st) @
                      map (\<lambda>r. \<lparr>sc_service_id = col_id r, sc_status = status (col_result r),
                                  sc_response_time = response_time (col_result r),
                                  sc_status_code = status_code (col_result r),
                                  sc_error_message = error_message (col_result r),
                                  checked_at = env_now env\<rparr>) (cs_collected st)\<rparr>
                 else cs_db st);
          db3 = cleanup_old_status_checks (env_now env) db2
      in \<lparr>out_response =
            \<lparr>http_status = 200, body = CheckedBody (length (cs_results st)) (cs_results st)\<rparr>,
          out_db = db3, out_probed = map svc_url due\<rparr>)"

text \<open>
  \<^verbatim>\<open>POST /api/check-status\<close>. The guard is
  \<^verbatim>\<open>cronSecret && authHeader !== `Bearer ${cronSecret}`\<close>: an unset or empty secret is
  falsy and lets every request through.
\<close>

definition check_status_POST :: "environment \<Rightarrow> request \<Rightarrow> database \<Rightarrow> outcome" where
  "check_status_POST env req db =
     (case env_cron_secret env of
        None \<Rightarrow> run_checks env req db
      | Some cronSecret \<Rightarrow>
          if cronSecret \<noteq> [] \<and> authorization req \<noteq> Some (''Bearer '' @ cronSecret)
          then unauthorized db
          else run_checks env req db)"

text \<open>
  \<^verbatim>\<open>GET /api/check-status\<close>. \<^verbatim>\<open>secret !== process.env.CRON_SECRET\<close> compares a string or
  \<^verbatim>\<open>null\<close> with a string or \<^verbatim>\<open>undefined\<close>: the two are equal only when both are the
  same string.
\<close>

definition check_status_GET :: "environment \<Rightarrow> request \<Rightarrow> database \<Rightarrow> outcome" where
  "check_status_GET env req db =
     (let forceParam = toLowerCase (case query_force req of None \<Rightarrow> [] | Some f \<Rightarrow> f) in
      case (query_secret req, env_cron_secret env) of
        (Some secret, Some cronSecret) \<Rightarrow>
          if secret \<noteq> cronSecret then unauthorized db
          else check_status_POST env
                 \<lparr>authorization = Some (''Bearer '' @ cronSecret),
                  x_force_check =
                    Some (if forceParam = ''1'' \<or> forceParam = ''true'' then ''1'' else ''0''),
                  query_secret = query_secret req, query_force = query_force req\<rparr> db
      | _ \<Rightarrow> unauthorized db)"

text \<open>
  \<^verbatim>\<open>GET /api/check-status/force/[secret]\<close>: \<open>expected\<close> is
  \<^verbatim>\<open>process.env.CRON_SECRET || ""\<close>, and the path segment is the secret.
\<close>

definition force_GET :: "environment \<Rightarrow> string \<Rightarrow> database \<Rightarrow> outcome" where
  "force_GET env secret db =
     (let expected = (case env_cron_secret env of None \<Rightarrow> [] | Some s \<Rightarrow> s) in
      if expected = [] \<or> secret \<noteq> expected then unauthorized db
      else check_status_POST env
             \<lparr>authorization = Some (''Bearer '' @ expected), x_force_check = Some ''1'',
              query_secret = None, query_force = None\<rparr> db)"

section \<open>The admin routes that insert rows\<close>

text \<open>
  \<^verbatim>\<open>POST /api/services/[id]/incidents\<close>. The first argument is \<^verbatim>\<open>parseInt(id)\<close>, \<open>None\<close>
  for \<^verbatim>\<open>NaN\<close>. A missing title violates \<^verbatim>\<open>NOT NULL\<close> and an unknown service the foreign
  key; both end in the handler's \<^verbatim>\<open>catch\<close> with status 500. The result is the status of
  the response and the database afterwards.
\<close>

record incident_body =
  ib_title :: "string option"
  ib_description :: "string option"
  ib_severity :: "string option"
  ib_status :: "string option"

definition or_default :: "string option \<Rightarrow> string \<Rightarrow> string" where
  "or_default v d = (case v of None \<Rightarrow> d | Some x \<Rightarrow> if x = [] then d else x)"

definition incidents_POST :: "int option \<Rightarrow> incident_body \<Rightarrow> int \<Rightarrow> database \<Rightarrow> nat \<times> database" where
  "incidents_POST serviceId b now db =
     (case serviceId of
        None \<Rightarrow> (400, db)
      | Some sid \<Rightarrow>
          (case ib_title b of
             None \<Rightarrow> (500, db)
           | Some t \<Rightarrow>
               if sid \<notin> set (map svc_id (services db)) then (500, db)
               else (201,
                     db\<lparr>incidents := incidents db @
                          [\<lparr>inc_id = incidents_seq db, inc_service_id = sid, inc_title = t,
                            inc_description =
                              (case ib_description b of
                                 None \<Rightarrow> None
                               | Some d \<Rightarrow> if d = [] then None else Some d),
                            inc_status = or_default (ib_status b) ''investigating'',
                            inc_severity = or_default (ib_severity b) ''major'',
                            started_at = now, resolved_at = None\<rparr>],
                        incidents_seq := incidents_seq db + 1\<rparr>)))"

text \<open>
  \<^verbatim>\<open>POST /api/services\<close>. The insert always passes a fourth parameter,
  \<^verbatim>\<open>check_interval || 300\<close>, so the column default of schema.sql is never used by this
  route. A url that is already stored violates \<^verbatim>\<open>services_url_unique\<close>.
\<close>

record service_body =
  sb_name :: "string option"
  sb_url :: "string option"
  sb_description :: "string option"
  sb_check_interval :: "int option"

definition services_POST :: "service_body \<Rightarrow> database \<Rightarrow> nat \<times> database" where
  "services_POST b db =
     (let name = or_default (sb_name b) []; url = or_default (sb_url b) [] in
      if name = [] \<or> url = [] then (400, db)
      else if url \<in> set (map svc_url (services db)) then (500, db)
      else (201,
            db\<lparr>services := services db @
                 [\<lparr>svc_id = services_seq db, svc_name = name, svc_url = url,
                   svc_description =
                     (case sb_description b of
                        None \<Rightarrow> None
                      | Some d \<Rightarrow> if d = [] then None else Some d),
                   is_active = True,
                   check_interval =
                     (case sb_check_interval b of
                        None \<Rightarrow> 300
                      | Some n \<Rightarrow> if n = 0 then 300 else n)\<rparr>],
               services_seq := services_seq db + 1\<rparr>))"

section \<open>Properties of database states\<close>

text \<open>The number of incidents of a service whose status is not \<^verbatim>\<open>resolved\<close>.\<close>

definition active_count :: "database \<Rightarrow> int \<Rightarrow> nat" where
  "active_count db sid = length (filter (is_open sid) (incidents db))"

text \<open>
  What \<^verbatim>\<open>SERIAL PRIMARY KEY\<close> gives the incident ids: each is positive and below the
  next value of the sequence.
\<close>

definition serial_ok :: "database \<Rightarrow> bool" where
  "serial_ok db =
     (0 < incidents_seq db \<and>
      list_all (\<lambda>i. 0 < inc_id i \<and> inc_id i < incidents_seq db) (incidents db))"

text \<open>
  Every announcement reason belongs to an incident of its service that is still open:
  the data model's "one row per currently active incident", read from the side of the
  reason rows.
\<close>

definition reasons_linked :: "database \<Rightarrow> bool" where
  "reasons_linked db =
     list_all (\<lambda>a. list_ex (\<lambda>i. inc_id i = ar_incident_id a \<and> is_open (ar_service_id a) i)
                      (incidents db))
       (announcement_reasons db)"

section \<open>Example inputs\<close>

text \<open>
  A probe in which the GET is rejected by an error without a message and the HEAD is
  aborted by its timer, five and a half seconds after the start.
\<close>

definition ex_get_error :: js_error where
  "ex_get_error = \<lparr>err_name = ''TypeError'', err_message = ''''\<rparr>"

definition ex_head_error :: js_error where
  "ex_head_error = \<lparr>err_name = ''AbortError'', err_message = ''This operation was aborted''\<rparr>"

definition ex_failing_net :: "string \<Rightarrow> probe_io" where
  "ex_failing_net url =
     \<lparr>start_time = 1000, get_outcome = Rejected ex_get_error, get_done = 0,
      head_start = 1500, head_outcome = Rejected ex_head_error, head_done = 0,
      fail_time = 6500\<rparr>"

text \<open>A probe whose GET is rejected and whose HEAD is answered with 405 after 300 ms.\<close>

definition ex_fallback_net :: "string \<Rightarrow> probe_io" where
  "ex_fallback_net url =
     \<lparr>start_time = 1000, get_outcome = Rejected ex_get_error, get_done = 0,
      head_start = 1500, head_outcome = Responded 405, head_done = 1800,
      fail_time = 0\<rparr>"

text \<open>
  One monitored service, a database that holds it and nothing else, and three probe
  results, one of each health level.
\<close>

definition ex_service :: service where
  "ex_service =
     \<lparr>svc_id = 1, svc_name = ''TCIOE Main Website'', svc_url = ''https://tcioe.edu.np'',
      svc_description = None, is_active = True, check_interval = 420\<rparr>"

definition ex_db_fresh :: database where
  "ex_db_fresh =
     \<lparr>services = [ex_service], status_checks = [], incidents = [], incident_updates = [],
      announcement_reasons = [], services_seq = 2, incidents_seq = 1\<rparr>"

definition ex_down_result :: probe_result where
  "ex_down_result =
     \<lparr>status = Down, response_time = None, status_code = None,
      error_message = Some ''Request timeout (>10s)''\<rparr>"


definition ex_degraded_result :: probe_result where
  "ex_degraded_result =
     \<lparr>status = Degraded, response_time = Some 3000, status_code = Some 200,
      error_message = Some ''Slow response''\<rparr>"

text \<open>The state after the first down result: one open incident and its reason.\<close>

definition ex_db_open :: database where
  "ex_db_open = worker_reconcile False [] 0 100 ex_service ex_down_result ex_db_fresh"

text \<open>An admin request that creates an incident and gives only a title.\<close>

definition ex_incident_body :: incident_body where
  "ex_incident_body =
     \<lparr>ib_title = Some ''Planned maintenance'', ib_description = None,
      ib_severity = None, ib_status = None\<rparr>"

text \<open>The state after that request: two open incidents of the same service.\<close>

definition ex_db_two_open :: database where
  "ex_db_two_open = snd (incidents_POST (Some 1) ex_incident_body 200 ex_db_open)"

text \<open>
  The same database with one stored status check of the service, taken at the given
  time; the service's interval is 420 seconds.
\<close>

definition ex_db_checked_at :: "int \<Rightarrow> database" where
  "ex_db_checked_at t =
     ex_db_fresh\<lparr>status_checks :=
       [\<lparr>sc_service_id = 1, sc_status = Operational, sc_response_time = Some 50,
         sc_status_code = Some 200, sc_error_message = None, checked_at = t\<rparr>]\<rparr>"

text \<open>The same service, switched off.\<close>

definition ex_inactive_service :: service where
  "ex_inactive_service = ex_service\<lparr>is_active := False\<rparr>"

text \<open>
  A deployment in which no secret is configured, and one in which it is; in both the
  network rejects every request. A request without any header or parameter, and one
  that carries a wrong bearer token.
\<close>

definition ex_env_no_secret :: environment where
  "ex_env_no_secret =
     \<lparr>env_cron_secret = None, env_supabase = False, env_templates = [],
      env_random_index = (\<lambda>sid. 0), env_net = ex_failing_net, env_now = 5000\<rparr>"

definition ex_env_secret :: environment where
  "ex_env_secret = ex_env_no_secret\<lparr>env_cron_secret := Some ''s3cret''\<rparr>"

definition ex_request_plain :: request where
  "ex_request_plain =
     \<lparr>authorization = None, x_force_check = None, query_secret = None, query_force = None\<rparr>"

definition ex_request_wrong :: request where
  "ex_request_wrong =
     \<lparr>authorization = Some ''Bearer guess'', x_force_check = Some ''1'',
      query_secret = Some ''guess'', query_force = Some ''1''\<rparr>"

text \<open>A request that creates a service and gives only its name and url.\<close>

definition ex_service_body :: service_body where
  "ex_service_body =
     \<lparr>sb_name = Some ''E-Library'', sb_url = Some ''https://elibrary.tcioe.edu.np'',
      sb_description = None, sb_check_interval = None\<rparr>"

text \<open>
  Four errors a rejected request can carry: a plain failure, a failed name lookup, a
  refused connection and the abort of the probe's own timer; and a network on which the
  GET and the HEAD of every url are rejected with the given error, 75 ms after the
  start.
\<close>

definition ex_fetch_failed :: js_error where
  "ex_fetch_failed = \<lparr>err_name = ''TypeError'', err_message = ''fetch failed''\<rparr>"

definition ex_dns_error :: js_error where
  "ex_dns_error =
     \<lparr>err_name = ''FetchError'',
      err_message = ''request failed, reason: getaddrinfo ENOTFOUND tcioe.edu.np''\<rparr>"

definition ex_refused_error :: js_error where
  "ex_refused_error =
     \<lparr>err_name = ''FetchError'',
      err_message = ''request failed, reason: connect ECONNREFUSED 127.0.0.1:443''\<rparr>"

definition ex_abort_error :: js_error where
  "ex_abort_error = \<lparr>err_name = ''AbortError'', err_message = ''This operation was aborted''\<rparr>"

definition ex_rejecting_net :: "js_error \<Rightarrow> string \<Rightarrow> probe_io" where
  "ex_rejecting_net e url =
     \<lparr>start_time = 1000, get_outcome = Rejected e, get_done = 0,
      head_start = 1040, head_outcome = Rejected e, head_done = 0,
      fail_time = 1075\<rparr>"

section \<open>The classifier and the prober\<close>

lemma classify_2xx:
  "200 \<le> c \<Longrightarrow> c < 300 \<Longrightarrow>
     classify c l = (if l \<le> 2500 then (Operational, None) else (Degraded, Some ''Slow response''))"
  by (simp add: classify_def)

text \<open>
  C2. The classifier gives the six rows of the classification table: (200, 100 ms) is
  operational without a message, (200, 3000 ms) is degraded with "Slow response", 503 is
  down with "Server error (503)", 404 is degraded with "Page not found (404)", 403 is
  operational without a message, 429 is degraded with "Rate limited (429)"; and a
  response with a code from 200 to 299 is operational exactly when its latency is at
  most 2500 ms, and degraded with "Slow response" otherwise.
\<close>

theorem classify_table:
  "classify 200 100 = (Operational, None)
   \<and> classify 200 3000 = (Degraded, Some ''Slow response'')
   \<and> classify 503 l = (Down, Some ''Server error (503)'')
   \<and> classify 404 l = (Degraded, Some ''Page not found (404)'')
   \<and> classify 403 l = (Operational, None)
   \<and> classify 429 l = (Degraded, Some ''Rate limited (429)'')
   \<and> (200 \<le> c \<and> c < 300 \<longrightarrow>
        (fst (classify c l) = Operational \<longleftrightarrow> l \<le> 2500)
        \<and> (fst (classify c l) = Degraded \<longleftrightarrow> \<not> l \<le> 2500)
        \<and> (snd (classify c l) = (if l \<le> 2500 then None else Some ''Slow response'')))"
proof -
  have "string_of_int 503 = ''503''"
    by (simp add: string_of_int_def string_of_nat.simps digit_char_def)
  then have "classify 503 l = (Down, Some ''Server error (503)'')"
    by (simp add: classify_def)
  moreover have "classify 200 100 = (Operational, None)"
    and "classify 200 3000 = (Degraded, Some ''Slow response'')"
    and "classify 404 l = (Degraded, Some ''Page not found (404)'')"
    and "classify 403 l = (Operational, None)"
    and "classify 429 l = (Degraded, Some ''Rate limited (429)'')"
    by (simp_all add: classify_def)
  moreover have "200 \<le> c \<and> c < 300 \<longrightarrow>
        (fst (classify c l) = Operational \<longleftrightarrow> l \<le> 2500)
        \<and> (fst (classify c l) = Degraded \<longleftrightarrow> \<not> l \<le> 2500)
        \<and> (snd (classify c l) = (if l \<le> 2500 then None else Some ''Slow response''))"
    by (simp add: classify_2xx)
  ultimately show ?thesis by blast
qed

theorem classify_table_witness:
  "(200::int) \<le> 204 \<and> (204::int) < 300
   \<and> fst (classify 204 2500) = Operational \<and> fst (classify 204 2501) = Degraded
   \<and> snd (classify 204 2501) = Some ''Slow response''
   \<and> classify 503 7 = (Down, Some ''Server error (503)'')"
  using classify_table [of 2500 204] classify_table [of 2501 204] classify_table [of 7 204]
  by simp

lemma failure_message_cases:
  "err_message e \<noteq> [] \<Longrightarrow>
     failure_message e = ''Request timeout (>10s)''
     \<or> failure_message e = ''Domain not found (DNS error)''
     \<or> failure_message e = ''Connection refused''
     \<or> failure_message e = err_message e"
  by (simp add: failure_message_def)

text \<open>
  C6. When the GET is rejected and the HEAD is rejected too, the prober returns a result
  that is down and has no status code. Its response time is null exactly when the error
  of the GET is the abort of the timeout, and the time elapsed since the start
  otherwise. Its message names the cause: the timeout text for an abort, else the DNS
  text when the error's message contains ENOTFOUND, else "Connection refused" when it
  contains ECONNREFUSED, else the error's own message; so for every error that carries
  a message, as the rejections of fetch do, it is one of these four. An error object
  with an empty message gets the fixed text "Connection failed".
\<close>

theorem double_failure_result:
  assumes "get_outcome (net url) = Rejected e" and "head_outcome (net url) = Rejected f"
  shows "status (checkServiceStatus net url) = Down
    \<and> status_code (checkServiceStatus net url) = None
    \<and> (response_time (checkServiceStatus net url) = None \<longleftrightarrow> err_name e = ''AbortError'')
    \<and> (err_name e \<noteq> ''AbortError'' \<longrightarrow>
         response_time (checkServiceStatus net url)
           = Some (fail_time (net url) - start_time (net url)))
    \<and> (err_message e \<noteq> [] \<longrightarrow>
         error_message (checkServiceStatus net url) = Some ''Request timeout (>10s)''
         \<or> error_message (checkServiceStatus net url) = Some ''Domain not found (DNS error)''
         \<or> error_message (checkServiceStatus net url) = Some ''Connection refused''
         \<or> error_message (checkServiceStatus net url) = Some (err_message e))
    \<and> (\<exists>m. error_message (checkServiceStatus net url) = Some m \<and>
          (if err_name e = ''AbortError'' then m = ''Request timeout (>10s)''
           else if str_includes (err_message e) ''ENOTFOUND'' then m = ''Domain not found (DNS error)''
           else if str_includes (err_message e) ''ECONNREFUSED'' then m = ''Connection refused''
           else if err_message e \<noteq> [] then m = err_message e
           else m = ''Connection failed''))"
proof -
  have m: "error_message (checkServiceStatus net url) = Some (failure_message e)"
    using assms by (simp add: checkServiceStatus_def Let_def)
  have a: "status (checkServiceStatus net url) = Down"
    and b: "status_code (checkServiceStatus net url) = None"
    and c: "response_time (checkServiceStatus net url) = None \<longleftrightarrow> err_name e = ''AbortError''"
    and d: "err_name e \<noteq> ''AbortError'' \<longrightarrow>
         response_time (checkServiceStatus net url)
           = Some (fail_time (net url) - start_time (net url))"
    using assms by (simp_all add: checkServiceStatus_def Let_def)
  have four: "err_message e \<noteq> [] \<longrightarrow>
         error_message (checkServiceStatus net url) = Some ''Request timeout (>10s)''
         \<or> error_message (checkServiceStatus net url) = Some ''Domain not found (DNS error)''
         \<or> error_message (checkServiceStatus net url) = Some ''Connection refused''
         \<or> error_message (checkServiceStatus net url) = Some (err_message e)"
    using failure_message_cases [of e] by (simp add: m)
  have five: "\<exists>m. error_message (checkServiceStatus net url) = Some m \<and>
          (if err_name e = ''AbortError'' then m = ''Request timeout (>10s)''
           else if str_includes (err_message e) ''ENOTFOUND'' then m = ''Domain not found (DNS error)''
           else if str_includes (err_message e) ''ECONNREFUSED'' then m = ''Connection refused''
           else if err_message e \<noteq> [] then m = err_message e
           else m = ''Connection failed'')"
    by (simp add: m failure_message_def)
  show ?thesis by (intro conjI a b c d four five)
qed

theorem double_failure_result_witness:
  "checkServiceStatus (ex_rejecting_net ex_abort_error) ''https://tcioe.edu.np'' =
     \<lparr>status = Down, response_time = None, status_code = None,
      error_message = Some ''Request timeout (>10s)''\<rparr>
   \<and> checkServiceStatus (ex_rejecting_net ex_dns_error) ''https://tcioe.edu.np'' =
     \<lparr>status = Down, response_time = Some 75, status_code = None,
      error_message = Some ''Domain not found (DNS error)''\<rparr>
   \<and> checkServiceStatus (ex_rejecting_net ex_refused_error) ''https://tcioe.edu.np'' =
     \<lparr>status = Down, response_time = Some 75, status_code = None,
      error_message = Some ''Connection refused''\<rparr>
   \<and> checkServiceStatus (ex_rejecting_net ex_fetch_failed) ''https://tcioe.edu.np'' =
     \<lparr>status = Down, response_time = Some 75, status_code = None,
      error_message = Some ''fetch failed''\<rparr>"
proof -
  have io: "get_outcome (ex_rejecting_net e ''https://tcioe.edu.np'') = Rejected e"
    "head_outcome (ex_rejecting_net e ''https://tcioe.edu.np'') = Rejected e"
    "fail_time (ex_rejecting_net e ''https://tcioe.edu.np'')
       - start_time (ex_rejecting_net e ''https://tcioe.edu.np'') = 75" for e
    by (simp_all add: ex_rejecting_net_def)
  have abort: "err_name ex_abort_error = ''AbortError''"
    by (simp add: ex_abort_error_def)
  have dns: "err_name ex_dns_error \<noteq> ''AbortError''"
    "str_includes (err_message ex_dns_error) ''ENOTFOUND''"
    by (simp_all add: ex_dns_error_def)
  have refused: "err_name ex_refused_error \<noteq> ''AbortError''"
    "\<not> str_includes (err_message ex_refused_error) ''ENOTFOUND''"
    "str_includes (err_message ex_refused_error) ''ECONNREFUSED''"
    by (simp_all add: ex_refused_error_def)
  have raw: "err_name ex_fetch_failed \<noteq> ''AbortError''"
    "\<not> str_includes (err_message ex_fetch_failed) ''ENOTFOUND''"
    "\<not> str_includes (err_message ex_fetch_failed) ''ECONNREFUSED''"
    "err_message ex_fetch_failed = ''fetch failed''"
    by (simp_all add: ex_fetch_failed_def)
  have 1: "checkServiceStatus (ex_rejecting_net ex_abort_error) ''https://tcioe.edu.np'' =
     \<lparr>status = Down, response_time = None, status_code = None,
      error_message = Some ''Request timeout (>10s)''\<rparr>"
    using double_failure_result
            [of "ex_rejecting_net ex_abort_error" "''https://tcioe.edu.np''" ex_abort_error
                ex_abort_error, OF io(1) io(2)] abort
    by (cases "checkServiceStatus (ex_rejecting_net ex_abort_error) ''https://tcioe.edu.np''")
       auto
  have 2: "checkServiceStatus (ex_rejecting_net ex_dns_error) ''https://tcioe.edu.np'' =
     \<lparr>status = Down, response_time = Some 75, status_code = None,
      error_message = Some ''Domain not found (DNS error)''\<rparr>"
    using double_failure_result
            [of "ex_rejecting_net ex_dns_error" "''https://tcioe.edu.np''" ex_dns_error
                ex_dns_error, OF io(1) io(2)] dns io(3) [of ex_dns_error]
    by (cases "checkServiceStatus (ex_rejecting_net ex_dns_error) ''https://tcioe.edu.np''")
       auto
  have 3: "checkServiceStatus (ex_rejecting_net ex_refused_error) ''https://tcioe.edu.np'' =
     \<lparr>status = Down, response_time = Some 75, status_code = None,
      error_message = Some ''Connection refused''\<rparr>"
    using double_failure_result
            [of "ex_rejecting_net ex_refused_error" "''https://tcioe.edu.np''" ex_refused_error
                ex_refused_error, OF io(1) io(2)] refused io(3) [of ex_refused_error]
    by (cases "checkServiceStatus (ex_rejecting_net ex_refused_error) ''https://tcioe.edu.np''")
       auto
  have 4: "checkServiceStatus (ex_rejecting_net ex_fetch_failed) ''https://tcioe.edu.np'' =
     \<lparr>status = Down, response_time = Some 75, status_code = None,
      error_message = Some ''fetch failed''\<rparr>"
    using double_failure_result
            [of "ex_rejecting_net ex_fetch_failed" "''https://tcioe.edu.np''" ex_fetch_failed
                ex_fetch_failed, OF io(1) io(2)] raw io(3) [of ex_fetch_failed]
    by (cases "checkServiceStatus (ex_rejecting_net ex_fetch_failed) ''https://tcioe.edu.np''")
       auto
  show ?thesis by (intro conjI 1 2 3 4)
qed

text \<open>
  C10. The prober returns a result on every path. The status code of the result is null
  exactly when the GET and the fallback HEAD were both rejected, and the result is then
  down; when the GET is answered, the status code is the code of that response, and
  when the GET is rejected and the HEAD is answered, it is the code of the HEAD
  response.
\<close>

theorem checkServiceStatus_status_code:
  "(status_code (checkServiceStatus net url) = None
      \<longleftrightarrow> (\<exists>e f. get_outcome (net url) = Rejected e \<and> head_outcome (net url) = Rejected f))
   \<and> (status_code (checkServiceStatus net url) = None
        \<longrightarrow> status (checkServiceStatus net url) = Down)
   \<and> (\<forall>c. get_outcome (net url) = Responded c
        \<longrightarrow> status_code (checkServiceStatus net url) = Some c)
   \<and> (\<forall>e c. get_outcome (net url) = Rejected e \<and> head_outcome (net url) = Responded c
        \<longrightarrow> status_code (checkServiceStatus net url) = Some c)"
  by (cases "get_outcome (net url)"; cases "head_outcome (net url)")
     (simp_all add: checkServiceStatus_def Let_def split: prod.splits)

theorem checkServiceStatus_status_code_witness:
  "get_outcome (ex_fallback_net ''https://tcioe.edu.np'') = Rejected ex_get_error
   \<and> head_outcome (ex_fallback_net ''https://tcioe.edu.np'') = Responded 405
   \<and> status_code (checkServiceStatus ex_fallback_net ''https://tcioe.edu.np'') = Some 405
   \<and> status_code (checkServiceStatus ex_failing_net ''https://tcioe.edu.np'') = None
   \<and> status (checkServiceStatus ex_failing_net ''https://tcioe.edu.np'') = Down"
proof -
  have g: "get_outcome (ex_fallback_net ''https://tcioe.edu.np'') = Rejected ex_get_error"
    and h: "head_outcome (ex_fallback_net ''https://tcioe.edu.np'') = Responded 405"
    by (simp_all add: ex_fallback_net_def)
  have g': "get_outcome (ex_failing_net ''https://tcioe.edu.np'') = Rejected ex_get_error"
    and h': "head_outcome (ex_failing_net ''https://tcioe.edu.np'') = Rejected ex_head_error"
    by (simp_all add: ex_failing_net_def)
  from checkServiceStatus_status_code [of ex_fallback_net "''https://tcioe.edu.np''"] g h
  have a: "status_code (checkServiceStatus ex_fallback_net ''https://tcioe.edu.np'') = Some 405"
    by blast
  from checkServiceStatus_status_code [of ex_failing_net "''https://tcioe.edu.np''"] g' h'
  have b: "status_code (checkServiceStatus ex_failing_net ''https://tcioe.edu.np'') = None
     \<and> status (checkServiceStatus ex_failing_net ''https://tcioe.edu.np'') = Down"
    by blast
  from a b g h show ?thesis by simp
qed


section \<open>Reconciliation keeps the incident tables in order\<close>

lemma fold_latest_in:
  "fold (\<lambda>j best. if started_at best < started_at j then j else best) rest i \<in> set (i # rest)"
proof (induction rest arbitrary: i)
  case Nil
  show ?case by simp
next
  case (Cons a rest)
  have "fold (\<lambda>j best. if started_at best < started_at j then j else best) rest
          (if started_at i < started_at a then a else i)
        \<in> set ((if started_at i < started_at a then a else i) # rest)"
    by (rule Cons.IH)
  then show ?case by (cases "started_at i < started_at a") auto
qed

lemma select_active_None:
  "select_active incs sid = None \<longleftrightarrow> filter (is_open sid) incs = []"
  by (simp add: select_active_def split: list.splits)

lemma select_active_Some:
  assumes "select_active incs sid = Some n"
  shows "\<exists>i \<in> set incs. is_open sid i \<and> inc_id i = n"
proof -
  from assms obtain i rest where f: "filter (is_open sid) incs = i # rest"
    and n: "n = inc_id (fold (\<lambda>j best. if started_at best < started_at j then j else best) rest i)"
    by (auto simp: select_active_def split: list.splits)
  have "fold (\<lambda>j best. if started_at best < started_at j then j else best) rest i
          \<in> set (filter (is_open sid) incs)"
    using fold_latest_in [of rest i] f by simp
  with n show ?thesis by auto
qed

lemma select_active_positive:
  assumes "serial_ok db" and "select_active (incidents db) sid = Some n"
  shows "n \<noteq> 0"
proof -
  from select_active_Some [OF assms(2)] obtain i where "i \<in> set (incidents db)" "inc_id i = n"
    by blast
  with assms(1) show ?thesis by (auto simp: serial_ok_def list_all_iff)
qed

lemma incidents_insert_reason [simp]: "incidents (insert_reason a db) = incidents db"
  and incidents_seq_insert_reason [simp]: "incidents_seq (insert_reason a db) = incidents_seq db"
  and incident_updates_insert_reason [simp]: "incident_updates (insert_reason a db) = incident_updates db"
  by (simp_all add: insert_reason_def)

lemma reconcile_down_open:
  assumes "serial_ok db" and "status r = Down" and "filter (is_open (svc_id s)) (incidents db) \<noteq> []"
  shows "worker_reconcile sb ts idx now s r db = db"
proof -
  from assms(3) obtain n where n: "select_active (incidents db) (svc_id s) = Some n"
    using select_active_None [of "incidents db" "svc_id s"]
    by (cases "select_active (incidents db) (svc_id s)") auto
  with assms(1) have "n \<noteq> 0" by (rule select_active_positive)
  with n assms(2) show ?thesis by (simp add: worker_reconcile_def)
qed

lemma reconcile_down_closed:
  assumes "status r = Down" and "filter (is_open (svc_id s)) (incidents db) = []"
  shows "incidents (worker_reconcile sb ts idx now s r db) =
           incidents db @ [\<lparr>inc_id = incidents_seq db, inc_service_id = svc_id s,
                           inc_title = svc_name s @ '' is down'',
                           inc_description =
                             Some (case error_message r of
                                     None \<Rightarrow> ''Service is not responding''
                                   | Some m \<Rightarrow> if m = [] then ''Service is not responding'' else m),
                           inc_status = ''investigating'', inc_severity = ''major'',
                           started_at = now, resolved_at = None\<rparr>]"
    and "incidents_seq (worker_reconcile sb ts idx now s r db) = incidents_seq db + 1"
  using assms select_active_None [of "incidents db" "svc_id s"]
  by (simp_all add: worker_reconcile_def Let_def split: prod.splits)

lemma reconcile_operational_incidents:
  assumes "status r = Operational"
  shows "incidents (worker_reconcile sb ts idx now s r db) =
           map (\<lambda>i. if is_open (svc_id s) i
                     then i\<lparr>inc_status := ''resolved'', resolved_at := Some now\<rparr> else i) (incidents db)"
    and "incidents_seq (worker_reconcile sb ts idx now s r db) = incidents_seq db"
  using assms by (simp_all add: worker_reconcile_def Let_def)

lemma reconcile_degraded:
  "status r = Degraded \<Longrightarrow> worker_reconcile sb ts idx now s r db = db"
  by (simp add: worker_reconcile_def)

lemma serial_ok_reconcile:
  assumes "serial_ok db"
  shows "serial_ok (worker_reconcile sb ts idx now s r db)"
proof (cases "status r")
  case Operational
  with assms show ?thesis
    by (auto simp: serial_ok_def list_all_iff reconcile_operational_incidents)
next
  case Degraded
  with assms show ?thesis by (simp add: reconcile_degraded)
next
  case Down
  show ?thesis
  proof (cases "filter (is_open (svc_id s)) (incidents db) = []")
    case True
    with Down assms show ?thesis
      by (auto simp: serial_ok_def list_all_iff reconcile_down_closed)
  next
    case False
    with Down assms show ?thesis by (simp add: reconcile_down_open)
  qed
qed

lemma filter_open_resolved:
  "filter (is_open t) (map (\<lambda>i. if is_open sid i
                     then i\<lparr>inc_status := ''resolved'', resolved_at := Some now\<rparr> else i) incs)
     = (if t = sid then [] else filter (is_open t) incs)"
  unfolding is_open_def by (induction incs) auto

lemma active_count_reconcile:
  assumes "serial_ok db"
  shows "active_count (worker_reconcile sb ts idx now s r db) t =
     (if status r = Operational \<and> t = svc_id s then 0
      else if status r = Down \<and> t = svc_id s \<and> active_count db t = 0 then 1
      else active_count db t)"
proof (cases "status r")
  case Operational
  then show ?thesis
    by (simp add: active_count_def reconcile_operational_incidents filter_open_resolved)
next
  case Degraded
  then show ?thesis by (simp add: reconcile_degraded)
next
  case Down
  show ?thesis
  proof (cases "filter (is_open (svc_id s)) (incidents db) = []")
    case True
    with Down show ?thesis
      by (auto simp: active_count_def reconcile_down_closed is_open_def)
  next
    case False
    with Down assms show ?thesis by (auto simp: reconcile_down_open active_count_def)
  qed
qed

lemma at_most_one_reconcile:
  assumes "serial_ok db" and "\<forall>t. active_count db t \<le> 1"
  shows "\<forall>t. active_count (worker_reconcile sb ts idx now s r db) t \<le> 1"
  using assms(2) by (simp add: active_count_reconcile [OF assms(1)])


lemma worker_invariant:
  assumes "serial_ok (cs_db st)" and "\<forall>t. active_count (cs_db st) t \<le> 1"
  shows "serial_ok (cs_db (worker env svcs st))
    \<and> (\<forall>t. active_count (cs_db (worker env svcs st)) t \<le> 1)"
  using assms
proof (induction svcs arbitrary: st)
  case Nil
  then show ?case by simp
next
  case (Cons s svcs)
  show ?case
    unfolding worker.simps Let_def
  proof (rule Cons.IH)
    show "serial_ok (cs_db \<lparr>cs_db = worker_reconcile (env_supabase env) (env_templates env)
             (env_random_index env (svc_id s)) (env_now env) s
             (checkServiceStatus (env_net env) (svc_url s)) (cs_db st),
           cs_collected = cs_collected st @
             [\<lparr>col_id = svc_id s, col_name = svc_name s,
               col_result = checkServiceStatus (env_net env) (svc_url s)\<rparr>],
           cs_results = cs_results st @
             [\<lparr>res_service = svc_name s,
               res_status = status (checkServiceStatus (env_net env) (svc_url s)),
               res_response_time = response_time (checkServiceStatus (env_net env) (svc_url s))\<rparr>]\<rparr>)"
      using Cons.prems(1) by (simp add: serial_ok_reconcile)
    show "\<forall>t. active_count (cs_db \<lparr>cs_db = worker_reconcile (env_supabase env) (env_templates env)
             (env_random_index env (svc_id s)) (env_now env) s
             (checkServiceStatus (env_net env) (svc_url s)) (cs_db st),
           cs_collected = cs_collected st @
             [\<lparr>col_id = svc_id s, col_name = svc_name s,
               col_result = checkServiceStatus (env_net env) (svc_url s)\<rparr>],
           cs_results = cs_results st @
             [\<lparr>res_service = svc_name s,
               res_status = status (checkServiceStatus (env_net env) (svc_url s)),
               res_response_time = response_time (checkServiceStatus (env_net env) (svc_url s))\<rparr>]\<rparr>) t \<le> 1"
      using at_most_one_reconcile [OF Cons.prems] by simp
  qed
qed

lemma incidents_run_checks:
  "incidents (out_db (run_checks env req db)) =
     incidents (cs_db (worker env (due_services
        (toLowerCase (case x_force_check req of None \<Rightarrow> [] | Some h \<Rightarrow> h) = ''1'' \<or>
         toLowerCase (case x_force_check req of None \<Rightarrow> [] | Some h \<Rightarrow> h) = ''true'')
        (env_now env) db) \<lparr>cs_db = db, cs_collected = [], cs_results = []\<rparr>))"
  and incidents_seq_run_checks:
  "incidents_seq (out_db (run_checks env req db)) =
     incidents_seq (cs_db (worker env (due_services
        (toLowerCase (case x_force_check req of None \<Rightarrow> [] | Some h \<Rightarrow> h) = ''1'' \<or>
         toLowerCase (case x_force_check req of None \<Rightarrow> [] | Some h \<Rightarrow> h) = ''true'')
        (env_now env) db) \<lparr>cs_db = db, cs_collected = [], cs_results = []\<rparr>))"
  by (simp_all add: run_checks_def Let_def cleanup_old_status_checks_def)

lemma run_checks_invariant:
  assumes "serial_ok db" and "\<forall>t. active_count db t \<le> 1"
  shows "serial_ok (out_db (run_checks env req db))
    \<and> (\<forall>t. active_count (out_db (run_checks env req db)) t \<le> 1)"
proof -
  let ?st = "\<lparr>cs_db = db, cs_collected = [], cs_results = []\<rparr>"
  have "serial_ok (cs_db ?st)" "\<forall>t. active_count (cs_db ?st) t \<le> 1"
    using assms by simp_all
  from worker_invariant [OF this] show ?thesis
    by (simp add: serial_ok_def active_count_def incidents_run_checks incidents_seq_run_checks)
qed

lemma check_status_POST_invariant:
  assumes "serial_ok db" and "\<forall>t. active_count db t \<le> 1"
  shows "serial_ok (out_db (check_status_POST env req db))
    \<and> (\<forall>t. active_count (out_db (check_status_POST env req db)) t \<le> 1)"
  using assms run_checks_invariant [OF assms]
  by (simp add: check_status_POST_def unauthorized_def split: option.splits)

section \<open>At most one open incident for each service\<close>

lemma ex_db_open_eq:
  "ex_db_open =
     \<lparr>services = [ex_service], status_checks = [],
      incidents = [\<lparr>inc_id = 1, inc_service_id = 1, inc_title = ''TCIOE Main Website is down'',
                    inc_description = Some ''Request timeout (>10s)'',
                    inc_status = ''investigating'', inc_severity = ''major'',
                    started_at = 100, resolved_at = None\<rparr>],
      incident_updates = [],
      announcement_reasons = [\<lparr>ar_incident_id = 1, ar_service_id = 1, reason_code = ''SERVER'',
                               reason_text = ''Server maintenance or outage''\<rparr>],
      services_seq = 2, incidents_seq = 2\<rparr>"
  by (simp add: ex_db_open_def worker_reconcile_def ex_down_result_def ex_db_fresh_def
      select_active_def ex_service_def pick_reason_def insert_reason_def)

lemma ex_db_two_open_eq:
  "ex_db_two_open =
     \<lparr>services = [ex_service], status_checks = [],
      incidents = [\<lparr>inc_id = 1, inc_service_id = 1, inc_title = ''TCIOE Main Website is down'',
                    inc_description = Some ''Request timeout (>10s)'',
                    inc_status = ''investigating'', inc_severity = ''major'',
                    started_at = 100, resolved_at = None\<rparr>,
                   \<lparr>inc_id = 2, inc_service_id = 1, inc_title = ''Planned maintenance'',
                    inc_description = None,
                    inc_status = ''investigating'', inc_severity = ''major'',
                    started_at = 200, resolved_at = None\<rparr>],
      incident_updates = [],
      announcement_reasons = [\<lparr>ar_incident_id = 1, ar_service_id = 1, reason_code = ''SERVER'',
                               reason_text = ''Server maintenance or outage''\<rparr>],
      services_seq = 2, incidents_seq = 3\<rparr>"
  by (simp add: ex_db_two_open_def ex_db_open_eq incidents_POST_def ex_incident_body_def
      ex_service_def or_default_def)

lemma worker_reconcile_down_split:
  "status r = Down \<Longrightarrow>
     worker_reconcile sb ts idx now s r db =
       down_after_select sb ts idx now s r (select_active (incidents db) (svc_id s)) db"
  by (simp add: worker_reconcile_def down_after_select_def)

lemma ex_db_raced_eq:
  "down_after_select False [] 0 101 ex_service ex_down_result
     (select_active (incidents ex_db_fresh) 1)
     (down_after_select False [] 0 100 ex_service ex_down_result
        (select_active (incidents ex_db_fresh) 1) ex_db_fresh) =
     \<lparr>services = [ex_service], status_checks = [],
      incidents = [\<lparr>inc_id = 1, inc_service_id = 1, inc_title = ''TCIOE Main Website is down'',
                    inc_description = Some ''Request timeout (>10s)'',
                    inc_status = ''investigating'', inc_severity = ''major'',
                    started_at = 100, resolved_at = None\<rparr>,
                   \<lparr>inc_id = 2, inc_service_id = 1, inc_title = ''TCIOE Main Website is down'',
                    inc_description = Some ''Request timeout (>10s)'',
                    inc_status = ''investigating'', inc_severity = ''major'',
                    started_at = 101, resolved_at = None\<rparr>],
      incident_updates = [],
      announcement_reasons = [\<lparr>ar_incident_id = 1, ar_service_id = 1, reason_code = ''SERVER'',
                               reason_text = ''Server maintenance or outage''\<rparr>,
                              \<lparr>ar_incident_id = 2, ar_service_id = 1, reason_code = ''SERVER'',
                               reason_text = ''Server maintenance or outage''\<rparr>],
      services_seq = 2, incidents_seq = 3\<rparr>"
  by (simp add: down_after_select_def ex_down_result_def ex_db_fresh_def
      select_active_def ex_service_def pick_reason_def insert_reason_def)

text \<open>
  C1, as the claim states it, fails twice over. Two cycles that overlap can both run the
  \<^verbatim>\<open>SELECT\<close> for a target before either runs its \<^verbatim>\<open>INSERT\<close>: both see no open
  incident, both insert, and the target has two. And the admin route inserts an incident
  whatever the service already has: after one down result the service has one open
  incident, the admin request is answered with 201 and leaves two.
\<close>

theorem two_open_incidents_counterexample:
  "active_count ex_db_fresh 1 = 0
   \<and> select_active (incidents ex_db_fresh) 1 = None
   \<and> active_count
        (down_after_select False [] 0 101 ex_service ex_down_result
           (select_active (incidents ex_db_fresh) 1)
           (down_after_select False [] 0 100 ex_service ex_down_result
              (select_active (incidents ex_db_fresh) 1) ex_db_fresh)) 1 = 2
   \<and> active_count (worker_reconcile False [] 0 100 ex_service ex_down_result ex_db_fresh) 1 = 1
   \<and> fst (incidents_POST (Some 1) ex_incident_body 200
            (worker_reconcile False [] 0 100 ex_service ex_down_result ex_db_fresh)) = 201
   \<and> active_count (snd (incidents_POST (Some 1) ex_incident_body 200
            (worker_reconcile False [] 0 100 ex_service ex_down_result ex_db_fresh))) 1 = 2"
proof -
  have "active_count ex_db_fresh 1 = 0"
    by (simp add: active_count_def ex_db_fresh_def)
  moreover have "select_active (incidents ex_db_fresh) 1 = None"
    by (simp add: select_active_def ex_db_fresh_def)
  moreover have "active_count
        (down_after_select False [] 0 101 ex_service ex_down_result
           (select_active (incidents ex_db_fresh) 1)
           (down_after_select False [] 0 100 ex_service ex_down_result
              (select_active (incidents ex_db_fresh) 1) ex_db_fresh)) 1 = 2"
    by (simp add: ex_db_raced_eq active_count_def is_open_def)
  moreover have "active_count ex_db_open 1 = 1"
    by (simp add: ex_db_open_eq active_count_def is_open_def)
  moreover have "fst (incidents_POST (Some 1) ex_incident_body 200 ex_db_open) = 201"
    by (simp add: ex_db_open_eq incidents_POST_def ex_incident_body_def ex_service_def)
  moreover have "active_count ex_db_two_open 1 = 2"
    by (simp add: ex_db_two_open_eq active_count_def is_open_def)
  ultimately show ?thesis
    by (simp add: ex_db_open_def ex_db_two_open_def)
qed

text \<open>
  C1, amended. A reconciliation of a down, operational or degraded result that runs
  without another writer of the incidents in between, so that the \<^verbatim>\<open>INSERT\<close> of the
  down branch still sees the state its \<^verbatim>\<open>SELECT\<close> read, keeps the bound: from a state
  in which every target has at most one incident that is not resolved, and whose
  incident ids come from the sequence, it leads to such a state again. So does a whole
  check cycle that nothing overlaps. The statement is about these runs only; it says
  nothing about reconciliations that overlap, and incident creation through the admin
  route is not part of it: that inserts unconditionally.
\<close>

theorem reconcile_at_most_one_active:
  "serial_ok db \<and> (\<forall>t. active_count db t \<le> 1) \<longrightarrow>
     serial_ok (worker_reconcile sb ts idx now s r db)
     \<and> (\<forall>t. active_count (worker_reconcile sb ts idx now s r db) t \<le> 1)
     \<and> (status r = Down \<longrightarrow>
          (\<forall>t. active_count
                 (down_after_select sb ts idx now s r (select_active (incidents db) (svc_id s)) db)
                 t \<le> 1))
     \<and> serial_ok (out_db (check_status_POST env req db))
     \<and> (\<forall>t. active_count (out_db (check_status_POST env req db)) t \<le> 1)"
proof
  assume a: "serial_ok db \<and> (\<forall>t. active_count db t \<le> 1)"
  then have s: "serial_ok db" and b: "\<forall>t. active_count db t \<le> 1"
    by simp_all
  have 1: "serial_ok (worker_reconcile sb ts idx now s r db)"
    using s by (rule serial_ok_reconcile)
  have 2: "\<forall>t. active_count (worker_reconcile sb ts idx now s r db) t \<le> 1"
    using s b by (rule at_most_one_reconcile)
  have 3: "status r = Down \<longrightarrow>
          (\<forall>t. active_count
                 (down_after_select sb ts idx now s r (select_active (incidents db) (svc_id s)) db)
                 t \<le> 1)"
  proof
    assume "status r = Down"
    then have "down_after_select sb ts idx now s r (select_active (incidents db) (svc_id s)) db
                 = worker_reconcile sb ts idx now s r db"
      by (rule worker_reconcile_down_split [symmetric])
    with 2 show "\<forall>t. active_count
                 (down_after_select sb ts idx now s r (select_active (incidents db) (svc_id s)) db)
                 t \<le> 1"
      by simp
  qed
  from check_status_POST_invariant [OF s b, of env req]
  have 4: "serial_ok (out_db (check_status_POST env req db))"
    and 5: "\<forall>t. active_count (out_db (check_status_POST env req db)) t \<le> 1"
    by blast+
  show "serial_ok (worker_reconcile sb ts idx now s r db)
     \<and> (\<forall>t. active_count (worker_reconcile sb ts idx now s r db) t \<le> 1)
     \<and> (status r = Down \<longrightarrow>
          (\<forall>t. active_count
                 (down_after_select sb ts idx now s r (select_active (incidents db) (svc_id s)) db)
                 t \<le> 1))
     \<and> serial_ok (out_db (check_status_POST env req db))
     \<and> (\<forall>t. active_count (out_db (check_status_POST env req db)) t \<le> 1)"
    by (intro conjI 1 2 3 4 5)
qed

theorem reconcile_at_most_one_active_witness:
  "serial_ok ex_db_open \<and> active_count ex_db_open 1 = 1
   \<and> (\<forall>t. active_count ex_db_open t \<le> 1)
   \<and> status ex_down_result = Down
   \<and> serial_ok (worker_reconcile False [] 0 300 ex_service ex_down_result ex_db_open)
   \<and> (\<forall>t. active_count (worker_reconcile False [] 0 300 ex_service ex_down_result ex_db_open) t \<le> 1)
   \<and> (\<forall>t. active_count
            (down_after_select False [] 0 300 ex_service ex_down_result
               (select_active (incidents ex_db_open) (svc_id ex_service)) ex_db_open) t \<le> 1)"
proof -
  have c: "active_count ex_db_open 1 = 1"
    by (simp add: ex_db_open_eq active_count_def is_open_def)
  have s: "serial_ok ex_db_open"
    by (simp add: ex_db_open_eq serial_ok_def)
  have a: "\<forall>t. active_count ex_db_open t \<le> 1"
    by (simp add: ex_db_open_eq active_count_def is_open_def)
  have d: "status ex_down_result = Down"
    by (simp add: ex_down_result_def)
  from reconcile_at_most_one_active [of ex_db_open False "[]" 0 300 ex_service ex_down_result] s a d
  have "serial_ok (worker_reconcile False [] 0 300 ex_service ex_down_result ex_db_open)
   \<and> (\<forall>t. active_count (worker_reconcile False [] 0 300 ex_service ex_down_result ex_db_open) t \<le> 1)
   \<and> (\<forall>t. active_count
            (down_after_select False [] 0 300 ex_service ex_down_result
               (select_active (incidents ex_db_open) (svc_id ex_service)) ex_db_open) t \<le> 1)"
    by blast
  with s c a d show ?thesis by blast
qed


section \<open>Down results that repeat, and degraded results\<close>


lemma active_count_pos_iff:
  "0 < active_count db t \<longleftrightarrow> filter (is_open t) (incidents db) \<noteq> []"
  by (simp add: active_count_def)

text \<open>
  C3. For a target that already has an incident that is not resolved, reconciling a
  down result creates no incident row and no announcement reason row: the database is
  left as it was. So a down result reconciled a second time changes nothing, whatever
  the first one did. Incident ids are those of the sequence, which starts at 1.
\<close>

theorem down_reconcile_idempotent:
  assumes "serial_ok db" and "status r = Down"
  shows "(0 < active_count db (svc_id s) \<longrightarrow>
            incidents (worker_reconcile sb ts idx now s r db) = incidents db
            \<and> announcement_reasons (worker_reconcile sb ts idx now s r db) = announcement_reasons db
            \<and> worker_reconcile sb ts idx now s r db = db)
         \<and> (status r' = Down \<longrightarrow>
              worker_reconcile sb' ts' idx' now' s r' (worker_reconcile sb ts idx now s r db)
                = worker_reconcile sb ts idx now s r db)"
proof -
  have first: "worker_reconcile sb ts idx now s r db = db" if "0 < active_count db (svc_id s)"
    using that assms by (simp add: active_count_pos_iff reconcile_down_open)
  have second: "worker_reconcile sb' ts' idx' now' s r' (worker_reconcile sb ts idx now s r db)
                  = worker_reconcile sb ts idx now s r db" if r': "status r' = Down"
  proof -
    let ?db1 = "worker_reconcile sb ts idx now s r db"
    have ok: "serial_ok ?db1" using assms(1) by (rule serial_ok_reconcile)
    have "0 < active_count ?db1 (svc_id s)"
      using assms(2) by (simp add: active_count_reconcile [OF assms(1)])
    then have "filter (is_open (svc_id s)) (incidents ?db1) \<noteq> []"
      by (simp add: active_count_pos_iff)
    with ok r' show ?thesis by (rule reconcile_down_open)
  qed
  from first second show ?thesis by simp
qed

theorem down_reconcile_idempotent_witness:
  "serial_ok ex_db_open \<and> status ex_down_result = Down \<and> 0 < active_count ex_db_open (svc_id ex_service)
   \<and> incidents (worker_reconcile True [] 0 300 ex_service ex_down_result ex_db_open) = incidents ex_db_open
   \<and> announcement_reasons (worker_reconcile True [] 0 300 ex_service ex_down_result ex_db_open)
       = announcement_reasons ex_db_open
   \<and> length (incidents (worker_reconcile True [] 0 300 ex_service ex_down_result ex_db_open)) = 1"
proof -
  have s: "serial_ok ex_db_open"
    by (simp add: ex_db_open_eq serial_ok_def)
  have d: "status ex_down_result = Down"
    by (simp add: ex_down_result_def)
  have c: "0 < active_count ex_db_open (svc_id ex_service)"
    by (simp add: ex_db_open_eq active_count_def is_open_def ex_service_def)
  have l: "length (incidents ex_db_open) = 1"
    by (simp add: ex_db_open_eq)
  from down_reconcile_idempotent [OF s d, of ex_service True "[]" 0 300] c l s d
  show ?thesis by simp
qed

lemma reconcile_not_down_length:
  "status r \<noteq> Down \<Longrightarrow> length (incidents (worker_reconcile sb ts idx now s r db)) = length (incidents db)"
  by (cases "status r") (simp_all add: reconcile_degraded reconcile_operational_incidents)

lemma active_count_reconcile_down_ge:
  assumes "status r = Down"
  shows "active_count db t \<le> active_count (worker_reconcile sb ts idx now s r db) t"
proof (cases "case select_active (incidents db) (svc_id s) of None \<Rightarrow> True | Some n \<Rightarrow> n = 0")
  case True
  with assms have "incidents (worker_reconcile sb ts idx now s r db) =
      incidents db @ [\<lparr>inc_id = incidents_seq db, inc_service_id = svc_id s,
                           inc_title = svc_name s @ '' is down'',
                           inc_description =
                             Some (case error_message r of
                                     None \<Rightarrow> ''Service is not responding''
                                   | Some m \<Rightarrow> if m = [] then ''Service is not responding'' else m),
                           inc_status = ''investigating'', inc_severity = ''major'',
                           started_at = now, resolved_at = None\<rparr>]"
    by (simp add: worker_reconcile_def Let_def split: prod.splits)
  then show ?thesis by (simp add: active_count_def)
next
  case False
  with assms have "worker_reconcile sb ts idx now s r db = db"
    by (simp add: worker_reconcile_def)
  then show ?thesis by simp
qed

lemma active_count_reconcile_operational_le:
  assumes "status r = Operational"
  shows "active_count (worker_reconcile sb ts idx now s r db) t \<le> active_count db t"
  using assms
  by (simp add: active_count_def reconcile_operational_incidents filter_open_resolved)

text \<open>
  C8. Reconciling a degraded result leaves the incidents, the incident updates and the
  announcement reasons as they were; the worker only collects the probe result for the
  batch insert. The number of open incidents of a target grows only on a down result
  (as does the number of incident rows), and shrinks only on an operational one.
\<close>

theorem degraded_changes_nothing:
  "(status r = Degraded \<longrightarrow>
      worker_reconcile sb ts idx now s r db = db
      \<and> incidents (worker_reconcile sb ts idx now s r db) = incidents db
      \<and> incident_updates (worker_reconcile sb ts idx now s r db) = incident_updates db
      \<and> announcement_reasons (worker_reconcile sb ts idx now s r db) = announcement_reasons db)
   \<and> (status (checkServiceStatus (env_net env) (svc_url s)) = Degraded \<longrightarrow>
        cs_db (worker env [s] st) = cs_db st
        \<and> cs_collected (worker env [s] st) = cs_collected st @
            [\<lparr>col_id = svc_id s, col_name = svc_name s,
              col_result = checkServiceStatus (env_net env) (svc_url s)\<rparr>])
   \<and> (active_count db t < active_count (worker_reconcile sb ts idx now s r db) t
        \<longrightarrow> status r = Down)
   \<and> (length (incidents (worker_reconcile sb ts idx now s r db)) \<noteq> length (incidents db)
        \<longrightarrow> status r = Down)
   \<and> (active_count (worker_reconcile sb ts idx now s r db) t < active_count db t
        \<longrightarrow> status r = Operational)"
proof -
  have a: "status r = Degraded \<longrightarrow>
      worker_reconcile sb ts idx now s r db = db
      \<and> incidents (worker_reconcile sb ts idx now s r db) = incidents db
      \<and> incident_updates (worker_reconcile sb ts idx now s r db) = incident_updates db
      \<and> announcement_reasons (worker_reconcile sb ts idx now s r db) = announcement_reasons db"
    by (simp add: reconcile_degraded)
  have b: "status (checkServiceStatus (env_net env) (svc_url s)) = Degraded \<longrightarrow>
        cs_db (worker env [s] st) = cs_db st
        \<and> cs_collected (worker env [s] st) = cs_collected st @
            [\<lparr>col_id = svc_id s, col_name = svc_name s,
              col_result = checkServiceStatus (env_net env) (svc_url s)\<rparr>]"
    by (simp add: Let_def reconcile_degraded)
  have c: "active_count db t < active_count (worker_reconcile sb ts idx now s r db) t
        \<longrightarrow> status r = Down"
    using active_count_reconcile_operational_le [of r sb ts idx now s db t]
    by (cases "status r") (simp_all add: reconcile_degraded)
  have d: "length (incidents (worker_reconcile sb ts idx now s r db)) \<noteq> length (incidents db)
        \<longrightarrow> status r = Down"
    using reconcile_not_down_length [of r sb ts idx now s db] by blast
  have e: "active_count (worker_reconcile sb ts idx now s r db) t < active_count db t
        \<longrightarrow> status r = Operational"
    using active_count_reconcile_down_ge [of r db t sb ts idx now s]
    by (cases "status r") (simp_all add: reconcile_degraded)
  show ?thesis by (intro conjI a b c d e)
qed

theorem degraded_changes_nothing_witness:
  "status ex_degraded_result = Degraded
   \<and> worker_reconcile True [] 0 300 ex_service ex_degraded_result ex_db_open = ex_db_open
   \<and> active_count (worker_reconcile True [] 0 300 ex_service ex_degraded_result ex_db_open) 1 = 1"
proof -
  have d: "status ex_degraded_result = Degraded"
    by (simp add: ex_degraded_result_def)
  have c: "active_count ex_db_open 1 = 1"
    by (simp add: ex_db_open_eq active_count_def is_open_def)
  from degraded_changes_nothing [of ex_degraded_result True "[]" 0 300 ex_service ex_db_open] d c
  show ?thesis by simp
qed


section \<open>Operational results resolve every open incident\<close>


lemma reconcile_operational_reasons:
  assumes "status r = Operational"
  shows "announcement_reasons (worker_reconcile sb ts idx now s r db) =
           filter (\<lambda>a. ar_incident_id a \<notin> inc_id ` set (filter (is_open (svc_id s)) (incidents db)))
             (announcement_reasons db)"
proof (cases "filter (is_open (svc_id s)) (incidents db) = []")
  case True
  with assms show ?thesis by (simp add: worker_reconcile_def)
next
  case False
  with assms show ?thesis by (simp add: worker_reconcile_def Let_def)
qed


lemma reasons_linked_iff:
  "reasons_linked db \<longleftrightarrow>
     (\<forall>a \<in> set (announcement_reasons db).
        \<exists>i \<in> set (incidents db). inc_id i = ar_incident_id a \<and> is_open (ar_service_id a) i)"
  by (simp add: reasons_linked_def list_all_iff list_ex_iff)

lemma reasons_linked_operational:
  assumes "reasons_linked db" and "status r = Operational"
  shows "reasons_linked (worker_reconcile sb ts idx now s r db)"
  unfolding reasons_linked_iff
proof
  fix a
  assume "a \<in> set (announcement_reasons (worker_reconcile sb ts idx now s r db))"
  then have a: "a \<in> set (announcement_reasons db)"
    and n: "ar_incident_id a \<notin> inc_id ` set (filter (is_open (svc_id s)) (incidents db))"
    by (simp_all add: reconcile_operational_reasons [OF assms(2)])
  from assms(1) a obtain i where i: "i \<in> set (incidents db)" "inc_id i = ar_incident_id a"
    "is_open (ar_service_id a) i"
    unfolding reasons_linked_iff by blast
  have "\<not> is_open (svc_id s) i"
  proof
    assume "is_open (svc_id s) i"
    with i(1) have "inc_id i \<in> inc_id ` set (filter (is_open (svc_id s)) (incidents db))"
      by simp
    with n i(2) show False by simp
  qed
  with i(1) have "i \<in> set (incidents (worker_reconcile sb ts idx now s r db))"
    by (force simp: reconcile_operational_incidents [OF assms(2)])
  with i show "\<exists>i \<in> set (incidents (worker_reconcile sb ts idx now s r db)).
      inc_id i = ar_incident_id a \<and> is_open (ar_service_id a) i"
    by blast
qed

lemma reasons_linked_append:
  assumes "reasons_linked db"
  shows "reasons_linked (db\<lparr>incidents := incidents db @ [n], incidents_seq := q\<rparr>)"
  using assms unfolding reasons_linked_iff by auto

lemma reasons_linked_insert_reason:
  assumes "reasons_linked db"
    and "\<exists>i \<in> set (incidents db). inc_id i = ar_incident_id a \<and> is_open (ar_service_id a) i"
  shows "reasons_linked (insert_reason a db)"
  using assms unfolding reasons_linked_iff by (auto simp: insert_reason_def)

lemma reasons_linked_down:
  assumes "reasons_linked db" and "status r = Down"
  shows "reasons_linked (worker_reconcile sb ts idx now s r db)"
proof (cases "case select_active (incidents db) (svc_id s) of None \<Rightarrow> True | Some n \<Rightarrow> n = 0")
  case False
  with assms have "worker_reconcile sb ts idx now s r db = db"
    by (simp add: worker_reconcile_def)
  with assms(1) show ?thesis by simp
next
  case True
  let ?new = "\<lparr>inc_id = incidents_seq db, inc_service_id = svc_id s,
                inc_title = svc_name s @ '' is down'',
                inc_description =
                  Some (case error_message r of
                          None \<Rightarrow> ''Service is not responding''
                        | Some m \<Rightarrow> if m = [] then ''Service is not responding'' else m),
                inc_status = ''investigating'', inc_severity = ''major'',
                started_at = now, resolved_at = None\<rparr>"
  let ?db1 = "db\<lparr>incidents := incidents db @ [?new], incidents_seq := incidents_seq db + 1\<rparr>"
  obtain c t where p: "pick_reason (if sb then ts else []) idx = (c, t)"
    by (cases "pick_reason (if sb then ts else []) idx")
  let ?a = "\<lparr>ar_incident_id = incidents_seq db, ar_service_id = svc_id s,
              reason_code = c, reason_text = t\<rparr>"
  have eq: "worker_reconcile sb ts idx now s r db = insert_reason ?a ?db1"
    using True assms(2) p by (simp add: worker_reconcile_def Let_def)
  have l1: "reasons_linked ?db1"
    using assms(1) by (rule reasons_linked_append)
  have "reasons_linked (insert_reason ?a ?db1)"
    by (rule reasons_linked_insert_reason [OF l1]) (simp add: is_open_def)
  with eq show ?thesis by simp
qed

lemma reasons_linked_reconcile:
  assumes "reasons_linked db"
  shows "reasons_linked (worker_reconcile sb ts idx now s r db)"
proof (cases "status r")
  case Operational
  with assms show ?thesis by (rule reasons_linked_operational)
next
  case Degraded
  then have "worker_reconcile sb ts idx now s r db = db" by (rule reconcile_degraded)
  with assms show ?thesis by simp
next
  case Down
  with assms show ?thesis by (rule reasons_linked_down)
qed

lemma reasons_linked_incidents_POST:
  assumes "reasons_linked db"
  shows "reasons_linked (snd (incidents_POST sid b now db))"
proof -
  have "reasons_linked (db\<lparr>incidents := incidents db @ [n], incidents_seq := q\<rparr>)" for n q
    using assms by (rule reasons_linked_append)
  with assms show ?thesis
    by (simp add: incidents_POST_def split: option.splits)
qed

lemma worker_reasons_linked:
  assumes "reasons_linked (cs_db st)"
  shows "reasons_linked (cs_db (worker env svcs st))"
  using assms
proof (induction svcs arbitrary: st)
  case Nil
  then show ?case by simp
next
  case (Cons s svcs)
  let ?st' = "\<lparr>cs_db = worker_reconcile (env_supabase env) (env_templates env)
             (env_random_index env (svc_id s)) (env_now env) s
             (checkServiceStatus (env_net env) (svc_url s)) (cs_db st),
           cs_collected = cs_collected st @
             [\<lparr>col_id = svc_id s, col_name = svc_name s,
               col_result = checkServiceStatus (env_net env) (svc_url s)\<rparr>],
           cs_results = cs_results st @
             [\<lparr>res_service = svc_name s,
               res_status = status (checkServiceStatus (env_net env) (svc_url s)),
               res_response_time = response_time (checkServiceStatus (env_net env) (svc_url s))\<rparr>]\<rparr>"
  have w: "worker env (s # svcs) st = worker env svcs ?st'"
    by (simp add: Let_def)
  have "reasons_linked (cs_db ?st')"
    using Cons.prems by (simp add: reasons_linked_reconcile)
  then have "reasons_linked (cs_db (worker env svcs ?st'))"
    by (rule Cons.IH)
  with w show ?case by simp
qed

lemma announcement_reasons_run_checks:
  "announcement_reasons (out_db (run_checks env req db)) =
     announcement_reasons (cs_db (worker env (due_services
        (toLowerCase (case x_force_check req of None \<Rightarrow> [] | Some h \<Rightarrow> h) = ''1'' \<or>
         toLowerCase (case x_force_check req of None \<Rightarrow> [] | Some h \<Rightarrow> h) = ''true'')
        (env_now env) db) \<lparr>cs_db = db, cs_collected = [], cs_results = []\<rparr>))"
  by (simp add: run_checks_def Let_def cleanup_old_status_checks_def)

lemma check_status_POST_reasons_linked:
  assumes "reasons_linked db"
  shows "reasons_linked (out_db (check_status_POST env req db))"
proof -
  let ?st = "\<lparr>cs_db = db, cs_collected = [], cs_results = []\<rparr>"
  have "reasons_linked (cs_db ?st)" using assms by simp
  then have "reasons_linked (cs_db (worker env svcs ?st))" for svcs
    by (rule worker_reasons_linked)
  then have "reasons_linked (out_db (run_checks env req db))"
    by (simp add: reasons_linked_def incidents_run_checks announcement_reasons_run_checks)
  with assms show ?thesis
    by (simp add: check_status_POST_def unauthorized_def split: option.splits)
qed





section \<open>Which services are due\<close>


lemma last_check_Max:
  "last_check checks sid =
     (if filter (\<lambda>c. sc_service_id c = sid) checks = [] then None
      else Some (Max (set (map checked_at (filter (\<lambda>c. sc_service_id c = sid) checks)))))"
proof (cases "filter (\<lambda>c. sc_service_id c = sid) checks")
  case Nil
  then show ?thesis by (simp add: last_check_def)
next
  case (Cons c cs)
  have "Max (set (checked_at c # map checked_at cs)) = fold max (map checked_at cs) (checked_at c)"
    by (rule Max.set_eq_fold)
  with Cons show ?thesis by (simp add: last_check_def)
qed

text \<open>
  C5. Without force, a target is selected exactly when it is a stored target, is active,
  and either has no status check at all or the latest \<^verbatim>\<open>checked_at\<close> among its status
  checks is at most now minus its check interval; so with an interval of 420 seconds a
  last check 421 seconds ago is due and one 419 seconds ago is not. With force, exactly
  the active targets are selected. A target that is not active is selected in neither
  mode. The urls a cycle probes are those of the selected targets, with force read from
  the request's header.
\<close>

theorem due_services_selection:
  "(s \<in> set (due_services False now db) \<longleftrightarrow>
      s \<in> set (services db) \<and> is_active s \<and>
      (filter (\<lambda>c. sc_service_id c = svc_id s) (status_checks db) = [] \<or>
       Max (set (map checked_at (filter (\<lambda>c. sc_service_id c = svc_id s) (status_checks db))))
         \<le> now - check_interval s))
   \<and> (s \<in> set (due_services True now db) \<longleftrightarrow> s \<in> set (services db) \<and> is_active s)
   \<and> (\<not> is_active s \<longrightarrow> s \<notin> set (due_services force now db))
   \<and> out_probed (run_checks env req db) =
        map svc_url
          (due_services
             (toLowerCase (case x_force_check req of None \<Rightarrow> [] | Some h \<Rightarrow> h) = ''1'' \<or>
              toLowerCase (case x_force_check req of None \<Rightarrow> [] | Some h \<Rightarrow> h) = ''true'')
             (env_now env) db)"
proof -
  have "out_probed (run_checks env req db) =
        map svc_url
          (due_services
             (toLowerCase (case x_force_check req of None \<Rightarrow> [] | Some h \<Rightarrow> h) = ''1'' \<or>
              toLowerCase (case x_force_check req of None \<Rightarrow> [] | Some h \<Rightarrow> h) = ''true'')
             (env_now env) db)"
    by (simp add: run_checks_def Let_def)
  then show ?thesis by (simp add: due_services_def last_check_Max)
qed

theorem due_services_selection_witness:
  "check_interval ex_service = 420 \<and> is_active ex_service
   \<and> ex_service \<in> set (due_services False 1000 (ex_db_checked_at (1000 - 421)))
   \<and> ex_service \<notin> set (due_services False 1000 (ex_db_checked_at (1000 - 419)))
   \<and> ex_service \<in> set (due_services True 1000 (ex_db_checked_at (1000 - 419)))
   \<and> ex_service \<in> set (due_services False 1000 ex_db_fresh)
   \<and> \<not> is_active ex_inactive_service
   \<and> ex_inactive_service \<notin> set (due_services True 1000 (ex_db_fresh\<lparr>services := [ex_inactive_service]\<rparr>))
   \<and> ex_inactive_service \<notin> set (due_services False 1000 (ex_db_fresh\<lparr>services := [ex_inactive_service]\<rparr>))"
proof -
  have a: "check_interval ex_service = 420" "is_active ex_service" "svc_id ex_service = 1"
    by (simp_all add: ex_service_def)
  have i: "\<not> is_active ex_inactive_service"
    by (simp add: ex_inactive_service_def)
  have m: "services (ex_db_checked_at t) = [ex_service]"
    "filter (\<lambda>c. sc_service_id c = 1) (status_checks (ex_db_checked_at t)) \<noteq> []"
    "Max (set (map checked_at (filter (\<lambda>c. sc_service_id c = 1) (status_checks (ex_db_checked_at t))))) = t"
    for t
    by (simp_all add: ex_db_checked_at_def ex_db_fresh_def)
  have f: "services ex_db_fresh = [ex_service]" "status_checks ex_db_fresh = []"
    by (simp_all add: ex_db_fresh_def)
  have "ex_service \<in> set (due_services False 1000 (ex_db_checked_at (1000 - 421)))"
    using due_services_selection [of ex_service 1000 "ex_db_checked_at (1000 - 421)"] a m
    by simp
  moreover have "ex_service \<notin> set (due_services False 1000 (ex_db_checked_at (1000 - 419)))"
    using due_services_selection [of ex_service 1000 "ex_db_checked_at (1000 - 419)"] a m
    by simp
  moreover have "ex_service \<in> set (due_services True 1000 (ex_db_checked_at (1000 - 419)))"
    using due_services_selection [of ex_service 1000 "ex_db_checked_at (1000 - 419)"] a m
    by simp
  moreover have "ex_service \<in> set (due_services False 1000 ex_db_fresh)"
    using due_services_selection [of ex_service 1000 ex_db_fresh] a f
    by simp
  moreover have "ex_inactive_service \<notin> set (due_services force 1000 (ex_db_fresh\<lparr>services := [ex_inactive_service]\<rparr>))"
    for force
    using due_services_selection [of ex_inactive_service 1000 "ex_db_fresh\<lparr>services := [ex_inactive_service]\<rparr>" force] i
    by blast
  ultimately show ?thesis using a i by blast
qed



section \<open>The shared secret of the three entry points\<close>

lemma unauthorized_fields:
  "http_status (out_response (unauthorized db)) = 401"
  "body (out_response (unauthorized db)) = ErrorBody ''Unauthorized''"
  "out_db (unauthorized db) = db"
  "out_probed (unauthorized db) = []"
  by (simp_all add: unauthorized_def)

text \<open>
  C9, as the claim states it, fails for the POST handler: when no secret is configured,
  a request without an authorization header is answered with 200, the service is probed
  and an incident and a status check are written.
\<close>

theorem open_trigger_counterexample:
  "env_cron_secret ex_env_no_secret = None \<and> authorization ex_request_plain = None
   \<and> http_status (out_response (check_status_POST ex_env_no_secret ex_request_plain ex_db_fresh)) = 200
   \<and> out_probed (check_status_POST ex_env_no_secret ex_request_plain ex_db_fresh)
       = [''https://tcioe.edu.np'']
   \<and> length (incidents (out_db (check_status_POST ex_env_no_secret ex_request_plain ex_db_fresh))) = 1
   \<and> length (status_checks (out_db (check_status_POST ex_env_no_secret ex_request_plain ex_db_fresh))) = 1
   \<and> incidents ex_db_fresh = [] \<and> status_checks ex_db_fresh = []"
  by code_simp

text \<open>
  C9, amended. The POST handler rejects a request when a non-empty secret is configured
  and the authorization header is not the bearer token of that secret; when no secret
  is configured it checks nothing. The GET handler rejects every request whose secret
  parameter is missing or differs from the configured secret, also when none is
  configured. The force route rejects every request when no secret or an empty one is
  configured, and every request whose path secret differs from it. A rejected request
  is answered with 401 before any target is selected or probed, and the database is
  left as it was.
\<close>

theorem unauthorized_requests_rejected:
  "(env_cron_secret env = Some k \<and> k \<noteq> [] \<and> authorization req \<noteq> Some (''Bearer '' @ k)
      \<longrightarrow> check_status_POST env req db = unauthorized db)
   \<and> (query_secret req = None \<or> env_cron_secret env = None
       \<or> query_secret req \<noteq> env_cron_secret env
      \<longrightarrow> check_status_GET env req db = unauthorized db)
   \<and> (env_cron_secret env = None \<or> env_cron_secret env = Some []
       \<or> env_cron_secret env \<noteq> Some secret
      \<longrightarrow> force_GET env secret db = unauthorized db)
   \<and> http_status (out_response (unauthorized db)) = 401
   \<and> out_db (unauthorized db) = db
   \<and> out_probed (unauthorized db) = []"
proof -
  have p: "env_cron_secret env = Some k \<and> k \<noteq> [] \<and> authorization req \<noteq> Some (''Bearer '' @ k)
      \<longrightarrow> check_status_POST env req db = unauthorized db"
    by (simp add: check_status_POST_def)
  have g: "query_secret req = None \<or> env_cron_secret env = None
       \<or> query_secret req \<noteq> env_cron_secret env
      \<longrightarrow> check_status_GET env req db = unauthorized db"
    by (auto simp: check_status_GET_def Let_def split: option.splits)
  have f: "env_cron_secret env = None \<or> env_cron_secret env = Some []
       \<or> env_cron_secret env \<noteq> Some secret
      \<longrightarrow> force_GET env secret db = unauthorized db"
    by (auto simp: force_GET_def Let_def split: option.splits)
  show ?thesis by (intro conjI p g f unauthorized_fields)
qed

theorem unauthorized_requests_rejected_witness:
  "env_cron_secret ex_env_secret = Some ''s3cret''
   \<and> authorization ex_request_wrong \<noteq> Some (''Bearer '' @ ''s3cret'')
   \<and> query_secret ex_request_wrong \<noteq> env_cron_secret ex_env_secret
   \<and> http_status (out_response (check_status_POST ex_env_secret ex_request_wrong ex_db_fresh)) = 401
   \<and> out_db (check_status_POST ex_env_secret ex_request_wrong ex_db_fresh) = ex_db_fresh
   \<and> out_probed (check_status_POST ex_env_secret ex_request_wrong ex_db_fresh) = []
   \<and> check_status_GET ex_env_secret ex_request_wrong ex_db_fresh = unauthorized ex_db_fresh
   \<and> check_status_GET ex_env_no_secret ex_request_plain ex_db_fresh = unauthorized ex_db_fresh
   \<and> force_GET ex_env_secret ''guess'' ex_db_fresh = unauthorized ex_db_fresh
   \<and> force_GET ex_env_no_secret '''' ex_db_fresh = unauthorized ex_db_fresh"
proof -
  have e: "env_cron_secret ex_env_secret = Some ''s3cret''" "env_cron_secret ex_env_no_secret = None"
    by (simp_all add: ex_env_secret_def ex_env_no_secret_def)
  have w: "authorization ex_request_wrong \<noteq> Some (''Bearer '' @ ''s3cret'')"
    "query_secret ex_request_wrong \<noteq> Some ''s3cret''" "query_secret ex_request_plain = None"
    by (simp_all add: ex_request_wrong_def ex_request_plain_def)
  have n: "''s3cret'' \<noteq> []" "Some ''s3cret'' \<noteq> Some ''guess''" by simp_all
  have 1: "check_status_POST ex_env_secret ex_request_wrong ex_db_fresh = unauthorized ex_db_fresh"
    using unauthorized_requests_rejected [of ex_env_secret "''s3cret''" ex_request_wrong ex_db_fresh] e w n
    by blast
  have 2: "check_status_GET ex_env_secret ex_request_wrong ex_db_fresh = unauthorized ex_db_fresh"
    using unauthorized_requests_rejected [of ex_env_secret "''s3cret''" ex_request_wrong ex_db_fresh] e w
    by simp
  have 3: "check_status_GET ex_env_no_secret ex_request_plain ex_db_fresh = unauthorized ex_db_fresh"
    using unauthorized_requests_rejected [of ex_env_no_secret _ ex_request_plain ex_db_fresh] w
    by blast
  have 4: "force_GET ex_env_secret ''guess'' ex_db_fresh = unauthorized ex_db_fresh"
    using unauthorized_requests_rejected [of ex_env_secret _ _ ex_db_fresh "''guess''"] e n
    by simp
  have 5: "force_GET ex_env_no_secret '''' ex_db_fresh = unauthorized ex_db_fresh"
    using unauthorized_requests_rejected [of ex_env_no_secret _ _ ex_db_fresh "''''"] e
    by blast
  from 1 2 3 4 5 e w show ?thesis by (simp add: unauthorized_fields)
qed



section \<open>The check interval of a new service\<close>

text \<open>
  C7. The claim is that a service created without a check interval gets 420 seconds, the
  default schema.sql declares. The service route never leaves the column to its
  default: it passes 300. Here a request with only a name and a url is answered with
  201, and the new row stands with 300 next to a seeded row with 420.
\<close>

theorem services_POST_default_interval:
  "sb_check_interval ex_service_body = None
   \<and> fst (services_POST ex_service_body ex_db_fresh) = 201
   \<and> map svc_name (services (snd (services_POST ex_service_body ex_db_fresh)))
       = [''TCIOE Main Website'', ''E-Library'']
   \<and> map check_interval (services (snd (services_POST ex_service_body ex_db_fresh))) = [420, 300]"
  by (simp add: services_POST_def ex_service_body_def ex_db_fresh_def ex_service_def or_default_def)


end
